theory Spec2Isabelle
  imports Main "HOL-Library.Sublist"
begin

section \<open>The chat widget of static/script.js\<close>

text \<open>
  The script wires a text field, a send button and a set of tool buttons to one
  request/response cycle against \<^verbatim>\<open>/api/consult\<close> and renders the transcript into the
  container \<^verbatim>\<open>#chat-messages\<close>. The page itself (its HTML) is not part of the script:
  the elements the script looks up at load time are taken to exist. The timer that
  hides the greeting (lines 10-14) and the initial focus (line 137) touch neither the
  transcript nor the network and are left out.

  A JavaScript string is modelled by its bytes in generalised UTF-8, as a \<^typ>\<open>string\<close>:
  a surrogate pair is the four-byte form of its code point, and an unpaired surrogate
  (U+D800..U+DFFF) is the three-byte form \<^verbatim>\<open>ED A0..BF 80..BF\<close>, which well-formed UTF-8
  does not have. So the type holds every value the text field can hold.
\<close>

subsection \<open>Strings: trim, encodeURIComponent, formatMessage\<close>

text \<open>
  \<^verbatim>\<open>String.prototype.trim\<close> removes WhiteSpace and LineTerminator code points from both
  ends: U+0009..U+000D, U+0020, U+00A0, U+1680, U+2000..U+200A, U+2028, U+2029, U+202F,
  U+205F, U+3000 and U+FEFF. The list holds their UTF-8 encodings.
\<close>

definition white_space :: "string list" where
  "white_space =
    [[CHR 0x09], [CHR 0x0A], [CHR 0x0B], [CHR 0x0C], [CHR 0x0D], [CHR 0x20],
     [CHR 0xC2, CHR 0xA0],
     [CHR 0xE1, CHR 0x9A, CHR 0x80],
     [CHR 0xE2, CHR 0x80, CHR 0x80], [CHR 0xE2, CHR 0x80, CHR 0x81],
     [CHR 0xE2, CHR 0x80, CHR 0x82], [CHR 0xE2, CHR 0x80, CHR 0x83],
     [CHR 0xE2, CHR 0x80, CHR 0x84], [CHR 0xE2, CHR 0x80, CHR 0x85],
     [CHR 0xE2, CHR 0x80, CHR 0x86], [CHR 0xE2, CHR 0x80, CHR 0x87],
     [CHR 0xE2, CHR 0x80, CHR 0x88], [CHR 0xE2, CHR 0x80, CHR 0x89],
     [CHR 0xE2, CHR 0x80, CHR 0x8A],
     [CHR 0xE2, CHR 0x80, CHR 0xA8], [CHR 0xE2, CHR 0x80, CHR 0xA9],
     [CHR 0xE2, CHR 0x80, CHR 0xAF],
     [CHR 0xE2, CHR 0x81, CHR 0x9F],
     [CHR 0xE3, CHR 0x80, CHR 0x80],
     [CHR 0xEF, CHR 0xBB, CHR 0xBF]]"

text \<open>
  \<open>strip ws s\<close> drops from the front of \<open>s\<close> every leading occurrence of a sequence of
  \<open>ws\<close>. A matching sequence \<open>w\<close> starts with the head \<open>c\<close>, so dropping \<open>w\<close> from \<open>c # cs\<close>
  is dropping \<open>length w - 1\<close> bytes from \<open>cs\<close>.
\<close>

fun strip :: "string list \<Rightarrow> string \<Rightarrow> string" where
  "strip ws [] = []"
| "strip ws (c # cs) =
     (case find (\<lambda>w. w \<noteq> [] \<and> take (length w) (c # cs) = w) ws of
        None \<Rightarrow> c # cs
      | Some w \<Rightarrow> strip ws (drop (length w - 1) cs))"

definition trimStart :: "string \<Rightarrow> string" where
  "trimStart s = strip white_space s"

definition trimEnd :: "string \<Rightarrow> string" where
  "trimEnd s = rev (strip (map rev white_space) (rev s))"

definition trim :: "string \<Rightarrow> string" where
  "trim s = trimEnd (trimStart s)"

text \<open>
  \<^verbatim>\<open>encodeURIComponent\<close> raises URIError on a string with an unpaired surrogate. On
  every other string it keeps the unreserved characters
  \<^verbatim>\<open>A-Z a-z 0-9 - _ . ! ~ * ' ( )\<close> and writes every other byte of the UTF-8 encoding
  as \<^verbatim>\<open>%XX\<close> with upper-case hexadecimal digits.

  The byte \<^verbatim>\<open>ED\<close> is never a continuation byte, and in well-formed UTF-8 it is followed
  by a byte of \<^verbatim>\<open>80..9F\<close>: followed by a byte of \<^verbatim>\<open>A0..BF\<close> it starts an unpaired
  surrogate.
\<close>

datatype uri_error = URI_malformed

fun lone_surrogate :: "string \<Rightarrow> bool" where
  "lone_surrogate (a # b # cs) =
     ((a = CHR 0xED \<and> (0xA0::nat) \<le> of_char b \<and> of_char b \<le> (0xBF::nat))
      \<or> lone_surrogate (b # cs))"
| "lone_surrogate cs = False"

definition unreserved :: "char \<Rightarrow> bool" where
  "unreserved c \<longleftrightarrow>
     c \<in> set (''ABCDEFGHIJKLMNOPQRSTUVWXYZabcdefghijklmnopqrstuvwxyz0123456789''
              @ ''-_.!~*'' @ [CHR 0x27] @ ''()'')"

definition hex_digit :: "nat \<Rightarrow> char" where
  "hex_digit n = ''0123456789ABCDEF'' ! (n mod 16)"

definition percent :: "char \<Rightarrow> string" where
  "percent c = [CHR ''%'', hex_digit (of_char c div 16), hex_digit (of_char c mod 16)]"

definition percent_encode :: "string \<Rightarrow> string" where
  "percent_encode s = concat (map (\<lambda>c. if unreserved c then [c] else percent c) s)"

definition encodeURIComponent :: "string \<Rightarrow> uri_error + string" where
  "encodeURIComponent s =
     (if lone_surrogate s then Inl URI_malformed else Inr (percent_encode s))"

text \<open>
  \<^verbatim>\<open>message.replace(/\n/g, '<br>')\<close> on a string: the pattern matches one line feed, the
  flag \<^verbatim>\<open>g\<close> makes the scan go on after each match, and the replacement text has no
  \<^verbatim>\<open>$\<close> pattern. The scan copies every unit that is not a line feed.
\<close>

fun replace_lf :: "string \<Rightarrow> string" where
  "replace_lf [] = []"
| "replace_lf (c # cs) =
     (if c = CHR 0x0A then ''<br>'' @ replace_lf cs else c # replace_lf cs)"

subsection \<open>Values of the parsed response body\<close>

text \<open>
  \<^verbatim>\<open>response.json()\<close> yields a JSON value. An object is the list of its own properties
  (keys distinct). Of a number the script can observe two things only: whether it is
  nonzero (ToBoolean) and its decimal rendering (ToString); \<open>JNum\<close> carries both, the
  floating-point formatting itself is not modelled. \<open>JUndefined\<close> is what reading a missing
  property yields; no parsed body contains it.
\<close>

datatype jsval =
    JUndefined
  | JNull
  | JBool bool
  | JNum bool string
  | JStr string
  | JArr "jsval list"
  | JObj "(string \<times> jsval) list"

text \<open>The TypeErrors the engine can raise while the script handles a body.\<close>

datatype type_error =
    Read_of_null string
  | Read_of_undefined string
  | Not_a_function string
  | No_primitive_value

text \<open>What a listener of the script can throw to the browser.\<close>

datatype exception = Type_error type_error | URI_error uri_error

text \<open>A thrown or rejected value: an Error object, of which the script reads \<^verbatim>\<open>message\<close>.\<close>

datatype js_error = Js_error (message: string)

text \<open>ToBoolean, as used by \<^verbatim>\<open>if (data.error)\<close>.\<close>

fun truthy :: "jsval \<Rightarrow> bool" where
  "truthy JUndefined = False"
| "truthy JNull = False"
| "truthy (JBool b) = b"
| "truthy (JNum nonzero shown) = nonzero"
| "truthy (JStr s) = (s \<noteq> [])"
| "truthy (JArr xs) = True"
| "truthy (JObj kvs) = True"

text \<open>
  Reading the property \<^verbatim>\<open>error\<close> or \<^verbatim>\<open>answer\<close> of a value. No prototype defines
  either name, so the read finds an own property of an object or nothing; on
  \<^verbatim>\<open>null\<close> and \<^verbatim>\<open>undefined\<close> it raises a TypeError.
\<close>

fun get_prop :: "jsval \<Rightarrow> string \<Rightarrow> type_error + jsval" where
  "get_prop JNull k = Inl (Read_of_null k)"
| "get_prop JUndefined k = Inl (Read_of_undefined k)"
| "get_prop (JObj kvs) k = Inr (case map_of kvs k of None \<Rightarrow> JUndefined | Some v \<Rightarrow> v)"
| "get_prop v k = Inr JUndefined"

fun join_comma :: "string list \<Rightarrow> string" where
  "join_comma [] = []"
| "join_comma [s] = s"
| "join_comma (s # t # ss) = s @ '','' @ join_comma (t # ss)"

text \<open>
  ToString, as applied by the template literal \<^verbatim>\<open>`Error: ${data.error}`\<close>. An array is
  joined with commas, \<^verbatim>\<open>null\<close> elements giving the empty string. A plain object gives
  \<^verbatim>\<open>[object Object]\<close> unless it has an own property \<^verbatim>\<open>toString\<close>: a JSON value is never
  callable, and then no conversion to a primitive exists.
\<close>

fun to_string :: "jsval \<Rightarrow> type_error + string"
  and to_strings :: "jsval list \<Rightarrow> type_error + string list" where
  "to_string JUndefined = Inr ''undefined''"
| "to_string JNull = Inr ''null''"
| "to_string (JBool b) = Inr (if b then ''true'' else ''false'')"
| "to_string (JNum nonzero shown) = Inr shown"
| "to_string (JStr s) = Inr s"
| "to_string (JArr xs) =
     (case to_strings xs of Inl e \<Rightarrow> Inl e | Inr ss \<Rightarrow> Inr (join_comma ss))"
| "to_string (JObj kvs) =
     (if ''toString'' \<in> fst ` set kvs then Inl No_primitive_value
      else Inr ''[object Object]'')"
| "to_strings [] = Inr []"
| "to_strings (x # xs) =
     (case (if x = JNull \<or> x = JUndefined then Inr [] else to_string x) of
        Inl e \<Rightarrow> Inl e
      | Inr s \<Rightarrow> (case to_strings xs of Inl e \<Rightarrow> Inl e | Inr ss \<Rightarrow> Inr (s # ss)))"

text \<open>
  \<^verbatim>\<open>formatMessage(message)\<close>, lines 131-134. Only a string has a method \<^verbatim>\<open>replace\<close>:
  the call raises a TypeError on every other value.
\<close>

fun formatMessage :: "jsval \<Rightarrow> type_error + string" where
  "formatMessage (JStr s) = Inr (replace_lf s)"
| "formatMessage JUndefined = Inl (Read_of_undefined ''replace'')"
| "formatMessage JNull = Inl (Read_of_null ''replace'')"
| "formatMessage v = Inl (Not_a_function ''message.replace'')"

subsection \<open>The page\<close>

text \<open>
  An element created by the script: its identity, class list, id attribute and the
  string assigned to \<^verbatim>\<open>innerHTML\<close>.
\<close>

record element =
  node :: nat
  classes :: "string list"
  ident :: string
  innerHTML :: string

text \<open>What the script does to the page and to the network, in the order it does it.\<close>

datatype effect =
    Set_input string
  | Append_child element
  | Remove_child nat
  | Scroll_to_bottom
  | Fetch string nat

text \<open>
  The state the script works on: the value of \<^verbatim>\<open>#user-input\<close>, the children of
  \<^verbatim>\<open>#chat-messages\<close> in document order, the identity of the next element created, and
  the effects so far. \<open>Fetch url n\<close> records a call of \<^verbatim>\<open>fetch(url)\<close> whose continuations
  hold the typing indicator \<open>n\<close>.
\<close>

record page =
  input_value :: string
  children :: "element list"
  fresh :: nat
  trace :: "effect list"

datatype sender = User | AI

fun sender_class :: "sender \<Rightarrow> string" where
  "sender_class User = ''user''"
| "sender_class AI = ''ai''"

fun sender_label :: "sender \<Rightarrow> string" where
  "sender_label User = ''You''"
| "sender_label AI = ''Sethry''"

definition nl :: string where
  "nl = [CHR 0x0A]"

definition message_html :: "sender \<Rightarrow> string \<Rightarrow> string \<Rightarrow> string" where
  \<open>message_html sender timestamp body =
     nl @ ''            <div class="message-header">''
     @ nl @ ''                <span>'' @ sender_label sender @ ''</span>''
     @ nl @ ''                <span class="message-time">'' @ timestamp @ ''</span>''
     @ nl @ ''            </div>''
     @ nl @ ''            <div class="message-content">'' @ body @ ''</div>''
     @ nl @ ''        ''\<close>

definition typing_html :: string where
  \<open>typing_html =
     nl @ ''            <div class="typing-dots">''
     @ nl @ ''                <span></span>''
     @ nl @ ''                <span></span>''
     @ nl @ ''                <span></span>''
     @ nl @ ''            </div>''
     @ nl @ ''            <span>Thinking...</span>''
     @ nl @ ''        ''\<close>

definition message_element :: "nat \<Rightarrow> sender \<Rightarrow> string \<Rightarrow> string \<Rightarrow> element" where
  "message_element n sender timestamp body =
     \<lparr>node = n, classes = [''message'', sender_class sender], ident = [],
      innerHTML = message_html sender timestamp body\<rparr>"

definition typing_element :: "nat \<Rightarrow> element" where
  "typing_element n =
     \<lparr>node = n, classes = [''typing-indicator''], ident = ''typing-indicator'',
      innerHTML = typing_html\<rparr>"

definition appendChild :: "element \<Rightarrow> page \<Rightarrow> page" where
  "appendChild el s = s\<lparr>children := children s @ [el], trace := trace s @ [Append_child el]\<rparr>"

definition scroll_to_bottom :: "page \<Rightarrow> page" where
  "scroll_to_bottom s = s\<lparr>trace := trace s @ [Scroll_to_bottom]\<rparr>"

definition createElement :: "page \<Rightarrow> nat \<times> page" where
  "createElement s = (fresh s, s\<lparr>fresh := Suc (fresh s)\<rparr>)"

text \<open>
  \<^verbatim>\<open>addMessageToChat(message, sender)\<close>, lines 89-107. The timestamp is the reading of
  the clock, formatted by the locale; it is a parameter. The element exists before
  \<^verbatim>\<open>formatMessage\<close> runs, and is appended only if that call returns.
\<close>

definition addMessageToChat :: "string \<Rightarrow> jsval \<Rightarrow> sender \<Rightarrow> page \<Rightarrow> page \<times> type_error option" where
  "addMessageToChat timestamp msg sender s =
     (let (n, s1) = createElement s in
      case formatMessage msg of
        Inl e \<Rightarrow> (s1, Some e)
      | Inr body \<Rightarrow>
          (scroll_to_bottom (appendChild (message_element n sender timestamp body) s1), None))"

text \<open>\<^verbatim>\<open>addTypingIndicator()\<close>, lines 110-128: returns the element it appended.\<close>

definition addTypingIndicator :: "page \<Rightarrow> nat \<times> page" where
  "addTypingIndicator s =
     (let (n, s1) = createElement s in
      (n, scroll_to_bottom (appendChild (typing_element n) s1)))"

subsection \<open>The request cycle\<close>

text \<open>
  The script appends every element to \<^verbatim>\<open>#chat-messages\<close> and to no other node, so the
  parent of an element is that container or none.
\<close>

datatype container = Chat_messages

definition parentNode :: "page \<Rightarrow> nat \<Rightarrow> container option" where
  "parentNode s n = (if n \<in> node ` set (children s) then Some Chat_messages else None)"

fun removeChild :: "container \<Rightarrow> nat \<Rightarrow> page \<Rightarrow> page" where
  "removeChild Chat_messages n s =
     s\<lparr>children := filter (\<lambda>e. node e \<noteq> n) (children s),
       trace := trace s @ [Remove_child n]\<rparr>"

text \<open>
  Lines 66-68 and 79-81:
  \<^verbatim>\<open>if (typingIndicator.parentNode) typingIndicator.parentNode.removeChild(typingIndicator)\<close>.
\<close>

definition remove_typing :: "nat \<Rightarrow> page \<Rightarrow> page" where
  "remove_typing ind s =
     (case parentNode s ind of None \<Rightarrow> s | Some p \<Rightarrow> removeChild p ind s)"

text \<open>
  Lines 70-75, the branch on \<^verbatim>\<open>data.error\<close>. A TypeError raised on the way leaves the
  block at once.
\<close>

definition render_response :: "string \<Rightarrow> jsval \<Rightarrow> page \<Rightarrow> page \<times> type_error option" where
  "render_response timestamp data s =
     (case get_prop data ''error'' of
        Inl e \<Rightarrow> (s, Some e)
      | Inr err \<Rightarrow>
          if truthy err then
            (case to_string err of
               Inl e \<Rightarrow> (s, Some e)
             | Inr t \<Rightarrow> addMessageToChat timestamp (JStr (''Error: '' @ t)) AI s)
          else
            (case get_prop data ''answer'' of
               Inl e \<Rightarrow> (s, Some e)
             | Inr answer \<Rightarrow> addMessageToChat timestamp answer AI s))"

text \<open>The handler of \<^verbatim>\<open>.then(data => ...)\<close>, lines 64-76.\<close>

definition then_handler :: "string \<Rightarrow> nat \<Rightarrow> jsval \<Rightarrow> page \<Rightarrow> page \<times> type_error option" where
  "then_handler timestamp ind data s = render_response timestamp data (remove_typing ind s)"

text \<open>The handler of \<^verbatim>\<open>.catch(error => ...)\<close>, lines 77-85.\<close>

definition catch_handler :: "string \<Rightarrow> nat \<Rightarrow> js_error \<Rightarrow> page \<Rightarrow> page \<times> type_error option" where
  "catch_handler timestamp ind err s =
     addMessageToChat timestamp (JStr (''Network error: '' @ message err)) AI
       (remove_typing ind s)"

text \<open>
  How the call settles: \<^verbatim>\<open>fetch\<close> or \<^verbatim>\<open>response.json()\<close> rejects with an error, or the
  body parses to a value.
\<close>

datatype outcome = Rejected js_error | Parsed jsval

text \<open>
  The chain \<^verbatim>\<open>fetch(...).then(r => r.json()).then(...).catch(...)\<close>: a rejection skips
  to the catch handler, and so does an error thrown by the then handler. The wording of
  a TypeError's message is the engine's: \<open>wording\<close> is a parameter. The two handlers
  read the clock separately. An error that leaves \<open>settle\<close> is an unhandled rejection.
\<close>

definition settle ::
  "(type_error \<Rightarrow> string) \<Rightarrow> string \<Rightarrow> string \<Rightarrow> nat \<Rightarrow> outcome \<Rightarrow> page \<Rightarrow> page \<times> type_error option" where
  "settle wording timestamp timestamp' ind out s =
     (case out of
        Rejected err \<Rightarrow> catch_handler timestamp ind err s
      | Parsed data \<Rightarrow>
          (case then_handler timestamp ind data s of
             (s1, None) \<Rightarrow> (s1, None)
           | (s1, Some e) \<Rightarrow> catch_handler timestamp' ind (Js_error (wording e)) s1))"

text \<open>
  The URL of line 62. The template first encodes the question, which may raise. The
  category is interpolated as it is; \<^verbatim>\<open>getAttribute\<close> gives \<^verbatim>\<open>null\<close> for a button
  without the attribute, which the template renders as \<^verbatim>\<open>null\<close>.
\<close>

fun category_text :: "string option \<Rightarrow> string" where
  "category_text None = ''null''"
| "category_text (Some c) = c"

definition consult_url :: "string \<Rightarrow> string option \<Rightarrow> uri_error + string" where
  "consult_url question category =
     (case encodeURIComponent question of
        Inl e \<Rightarrow> Inl e
      | Inr q \<Rightarrow> Inr (''/api/consult?question='' @ q @ ''&category='' @ category_text category))"

definition set_input :: "string \<Rightarrow> page \<Rightarrow> page" where
  "set_input v s = s\<lparr>input_value := v, trace := trace s @ [Set_input v]\<rparr>"

definition fetch :: "string \<Rightarrow> nat \<Rightarrow> page \<Rightarrow> page" where
  "fetch url ind s = s\<lparr>trace := trace s @ [Fetch url ind]\<rparr>"

text \<open>
  \<^verbatim>\<open>sendQuestion(question, category)\<close>, lines 51-86, up to the call of \<^verbatim>\<open>fetch\<close>. The
  argument of \<^verbatim>\<open>fetch\<close> is evaluated after the user's message and the typing indicator
  have been appended: when it raises, the listener ends there, outside the promise
  chain, and no call is issued.
\<close>

definition sendQuestion ::
  "string \<Rightarrow> string \<Rightarrow> string option \<Rightarrow> page \<Rightarrow> page \<times> exception option" where
  "sendQuestion timestamp question category s =
     (case addMessageToChat timestamp (JStr question) User (set_input [] s) of
        (s2, Some e) \<Rightarrow> (s2, Some (Type_error e))
      | (s2, None) \<Rightarrow>
          (let (ind, s3) = addTypingIndicator s2
           in case consult_url question category of
                Inl e \<Rightarrow> (s3, Some (URI_error e))
              | Inr url \<Rightarrow> (fetch url ind s3, None)))"

text \<open>\<^verbatim>\<open>sendMessage()\<close>, lines 42-48: a string is truthy when it is not empty.\<close>

definition sendMessage :: "string \<Rightarrow> page \<Rightarrow> page \<times> exception option" where
  "sendMessage timestamp s =
     (let question = trim (input_value s) in
      if question \<noteq> [] then sendQuestion timestamp question (Some ''general'') s
      else (s, None))"

text \<open>The keypress listener of the text field, lines 30-34.\<close>

definition on_keypress :: "string \<Rightarrow> string \<Rightarrow> page \<Rightarrow> page \<times> exception option" where
  "on_keypress timestamp key s =
     (if key = ''Enter'' then sendMessage timestamp s else (s, None))"

text \<open>
  The click listener of a tool button, lines 18-23, with the button's \<^verbatim>\<open>textContent\<close>
  and its attribute \<^verbatim>\<open>data-category\<close>.
\<close>

definition tool_click ::
  "string \<Rightarrow> string \<Rightarrow> string option \<Rightarrow> page \<Rightarrow> page \<times> exception option" where
  "tool_click timestamp label category s =
     sendQuestion timestamp label category (set_input label s)"

subsection \<open>Observations\<close>

text \<open>The network calls issued so far, each with the typing indicator of its continuations.\<close>

fun requests :: "effect list \<Rightarrow> (string \<times> nat) list" where
  "requests [] = []"
| "requests (Fetch url ind # es) = (url, ind) # requests es"
| "requests (e # es) = requests es"

text \<open>The transcript: the children that carry the class \<^verbatim>\<open>message\<close>, in document order.\<close>

definition is_message :: "element \<Rightarrow> bool" where
  "is_message e \<longleftrightarrow> ''message'' \<in> set (classes e)"

definition transcript :: "page \<Rightarrow> element list" where
  "transcript s = filter is_message (children s)"

subsection \<open>Sessions\<close>

text \<open>
  What can happen to a loaded page: a click on the send button, a key pressed in the
  text field, a click on a tool button, and the settlement of the \<open>i\<close>-th network call.
  A settled call is not retired, so a run may settle one call more than once, which
  no browser does; what holds of every run holds of the browser's runs.
\<close>

datatype event =
    Send_click string
  | Keypress string string
  | Tool_click string "string option" string
  | Settled nat outcome string string

definition step :: "(type_error \<Rightarrow> string) \<Rightarrow> event \<Rightarrow> page \<Rightarrow> page" where
  "step wording ev s =
     (case ev of
        Send_click ts \<Rightarrow> fst (sendMessage ts s)
      | Keypress key ts \<Rightarrow> fst (on_keypress ts key s)
      | Tool_click label category ts \<Rightarrow> fst (tool_click ts label category s)
      | Settled i out ts ts' \<Rightarrow>
          (if i < length (requests (trace s))
           then fst (settle wording ts ts' (snd (requests (trace s) ! i)) out s)
           else s))"

fun run :: "(type_error \<Rightarrow> string) \<Rightarrow> event list \<Rightarrow> page \<Rightarrow> page" where
  "run wording [] s = s"
| "run wording (ev # evs) s = run wording evs (step wording ev s)"

text \<open>
  Element identities in use are below \<open>fresh\<close>, and the typing indicator held by a
  network call is not an element of the transcript.
\<close>

definition wf :: "page \<Rightarrow> bool" where
  "wf s \<longleftrightarrow>
     (\<forall>e \<in> set (children s). node e < fresh s) \<and>
     (\<forall>r \<in> set (requests (trace s)). snd r < fresh s \<and>
        (\<forall>e \<in> set (children s). node e = snd r \<longrightarrow> \<not> is_message e))"

text \<open>The page as loaded, with the children the document gives the container.\<close>

definition loaded :: "string \<Rightarrow> element list \<Rightarrow> page" where
  "loaded v els = \<lparr>input_value = v, children = els, fresh = Suc (Max (node ` set els \<union> {0})), trace = []\<rparr>"

text \<open>The wording of V8 (Chrome, Node.js), as one instance of the engine's wording.\<close>

fun v8_wording :: "type_error \<Rightarrow> string" where
  "v8_wording (Read_of_null k) =
     ''Cannot read properties of null (reading '' @ [CHR 0x27] @ k @ [CHR 0x27] @ '')''"
| "v8_wording (Read_of_undefined k) =
     ''Cannot read properties of undefined (reading '' @ [CHR 0x27] @ k @ [CHR 0x27] @ '')''"
| "v8_wording (Not_a_function f) = f @ '' is not a function''"
| "v8_wording No_primitive_value = ''Cannot convert object to primitive value''"

text \<open>
  The rendering of a message body in the words of the specification: each line break
  becomes a visual line break, every other character stays as it is.
\<close>

definition br_text :: "string \<Rightarrow> string" where
  "br_text m = concat (map (\<lambda>c. if c = CHR 0x0A then ''<br>'' else [c]) m)"

subsection \<open>Two sessions under way\<close>

text \<open>
  The page after the question of the specification's scenario has been submitted at
  10:00 on an empty transcript, and the page after two tool buttons have been clicked.
\<close>

definition asked :: page where
  "asked = fst (sendMessage ''10:00'' (loaded ''How can I improve my cash flow?'' []))"

definition asked_twice :: page where
  "asked_twice =
     run v8_wording
       [Tool_click ''Cash flow'' (Some ''finance'') ''10:00'',
        Tool_click ''Hiring'' (Some ''hr'') ''10:01'']
       (loaded [] [])"

section \<open>Auxiliary facts\<close>

subsection \<open>The operations, unfolded\<close>

lemma addMessageToChat_JStr:
  "addMessageToChat ts (JStr m) sd s =
     (s\<lparr>fresh := Suc (fresh s),
        children := children s @ [message_element (fresh s) sd ts (replace_lf m)],
        trace := trace s @ [Append_child (message_element (fresh s) sd ts (replace_lf m)),
                            Scroll_to_bottom]\<rparr>, None)"
  by (simp add: addMessageToChat_def createElement_def appendChild_def scroll_to_bottom_def)

lemma addMessageToChat_cases:
  obtains (raised) e where "addMessageToChat ts m sd s = (s\<lparr>fresh := Suc (fresh s)\<rparr>, Some e)"
  | (appended) b where "addMessageToChat ts m sd s = addMessageToChat ts (JStr b) sd s"
proof (cases "formatMessage m")
  case (Inl e)
  then have "addMessageToChat ts m sd s = (s\<lparr>fresh := Suc (fresh s)\<rparr>, Some e)"
    by (simp add: addMessageToChat_def createElement_def)
  then show ?thesis by (rule raised)
next
  case (Inr b)
  then obtain t where "m = JStr t" by (cases m) auto
  then show ?thesis using appended by blast
qed

lemma addTypingIndicator_eq:
  "addTypingIndicator s =
     (fresh s,
      s\<lparr>fresh := Suc (fresh s),
        children := children s @ [typing_element (fresh s)],
        trace := trace s @ [Append_child (typing_element (fresh s)), Scroll_to_bottom]\<rparr>)"
  by (simp add: addTypingIndicator_def createElement_def appendChild_def scroll_to_bottom_def)

lemma requests_append: "requests (es @ fs) = requests es @ requests fs"
  by (induction es rule: requests.induct) simp_all

lemma sendQuestion_eq:
  "sendQuestion ts q c s =
     (s\<lparr>input_value := [],
        fresh := Suc (Suc (fresh s)),
        children := children s @ [message_element (fresh s) User ts (replace_lf q),
                                  typing_element (Suc (fresh s))],
        trace := trace s @
          [Set_input [],
           Append_child (message_element (fresh s) User ts (replace_lf q)), Scroll_to_bottom,
           Append_child (typing_element (Suc (fresh s))), Scroll_to_bottom] @
          (case encodeURIComponent q of
             Inl e \<Rightarrow> []
           | Inr enc \<Rightarrow>
               [Fetch (''/api/consult?question='' @ enc @ ''&category='' @ category_text c)
                  (Suc (fresh s))])\<rparr>,
      case encodeURIComponent q of Inl e \<Rightarrow> Some (URI_error e) | Inr enc \<Rightarrow> None)"
  by (cases "encodeURIComponent q")
     (simp_all add: sendQuestion_def addMessageToChat_JStr addTypingIndicator_eq set_input_def
        fetch_def consult_url_def)

lemma remove_typing_detached: "parentNode s ind = None \<Longrightarrow> remove_typing ind s = s"
  by (simp add: remove_typing_def)

lemma remove_typing_attached:
  "parentNode s ind \<noteq> None \<Longrightarrow>
   remove_typing ind s =
     s\<lparr>children := filter (\<lambda>e. node e \<noteq> ind) (children s), trace := trace s @ [Remove_child ind]\<rparr>"
  by (auto simp: remove_typing_def parentNode_def split: if_splits)

lemma children_remove_typing:
  "children (remove_typing ind s) = filter (\<lambda>e. node e \<noteq> ind) (children s)"
proof (cases "parentNode s ind")
  case None
  then have "\<forall>e \<in> set (children s). node e \<noteq> ind"
    by (auto simp: parentNode_def split: if_splits)
  then have "filter (\<lambda>e. node e \<noteq> ind) (children s) = children s"
    by (simp add: filter_id_conv)
  with None show ?thesis by (simp add: remove_typing_detached)
next
  case (Some p)
  then show ?thesis by (simp add: remove_typing_attached)
qed

lemma fresh_remove_typing: "fresh (remove_typing ind s) = fresh s"
  by (cases "parentNode s ind") (simp_all add: remove_typing_detached remove_typing_attached)

lemma input_remove_typing: "input_value (remove_typing ind s) = input_value s"
  by (cases "parentNode s ind") (simp_all add: remove_typing_detached remove_typing_attached)

lemma requests_remove_typing: "requests (trace (remove_typing ind s)) = requests (trace s)"
  by (cases "parentNode s ind")
     (simp_all add: remove_typing_detached remove_typing_attached requests_append)

lemma parentNode_remove_typing: "parentNode (remove_typing ind s) ind = None"
  by (auto simp: parentNode_def children_remove_typing)

lemma not_message_typing: "\<not> is_message (typing_element n)"
  by (simp add: is_message_def typing_element_def)

lemma is_message_message: "is_message (message_element n sd ts b)"
  by (simp add: is_message_def message_element_def)

lemma node_message [simp]: "node (message_element n sd ts b) = n"
  by (simp add: message_element_def)

lemma node_typing [simp]: "node (typing_element n) = n"
  by (simp add: typing_element_def)

lemma wf_fresh: "wf s \<Longrightarrow> wf (s\<lparr>fresh := Suc (fresh s)\<rparr>)"
  by (fastforce simp: wf_def)

lemma wf_addMessageToChat: "wf s \<Longrightarrow> wf (fst (addMessageToChat ts m sd s))"
proof (cases rule: addMessageToChat_cases [of ts m sd s])
  case (raised e)
  assume "wf s"
  with raised show ?thesis by (simp add: wf_fresh)
next
  case (appended b)
  assume "wf s"
  then show ?thesis
    unfolding appended addMessageToChat_JStr
    by (fastforce simp: wf_def requests_append)
qed

lemma transcript_addMessageToChat:
  "prefix (transcript s) (transcript (fst (addMessageToChat ts m sd s)))"
proof (cases rule: addMessageToChat_cases [of ts m sd s])
  case (raised e)
  then show ?thesis by (simp add: transcript_def)
next
  case (appended b)
  show ?thesis
    unfolding appended addMessageToChat_JStr by (simp add: transcript_def)
qed

lemma wf_sendQuestion: "wf s \<Longrightarrow> wf (fst (sendQuestion ts q c s))"
  unfolding sendQuestion_eq
  by (cases "encodeURIComponent q")
     (fastforce simp: wf_def requests_append not_message_typing)+

lemma transcript_sendQuestion:
  "transcript (fst (sendQuestion ts q c s)) =
     transcript s @ [message_element (fresh s) User ts (replace_lf q)]"
  unfolding sendQuestion_eq
  by (simp add: transcript_def not_message_typing is_message_message)

lemma wf_set_input: "wf s \<Longrightarrow> wf (set_input v s)"
  by (simp add: wf_def set_input_def requests_append)

lemma transcript_set_input: "transcript (set_input v s) = transcript s"
  by (simp add: transcript_def set_input_def)

lemma wf_remove_typing: "wf s \<Longrightarrow> wf (remove_typing ind s)"
  by (simp add: wf_def children_remove_typing fresh_remove_typing requests_remove_typing)

lemma transcript_remove_typing:
  assumes "wf s" and "(u, ind) \<in> set (requests (trace s))"
  shows "transcript (remove_typing ind s) = transcript s"
proof -
  from assms have "\<forall>e \<in> set (children s). is_message e \<longrightarrow> node e \<noteq> ind"
    by (fastforce simp: wf_def)
  then have "filter is_message (filter (\<lambda>e. node e \<noteq> ind) (children s)) =
             filter is_message (children s)"
    by (auto intro: filter_cong)
  then show ?thesis by (simp add: transcript_def children_remove_typing)
qed


lemma render_response_cases:
  obtains (kept) e where "render_response ts data s = (s, Some e)"
  | (rendered) m where "render_response ts data s = addMessageToChat ts m AI s"
  unfolding render_response_def
  by (cases "get_prop data ''error''"; cases "get_prop data ''answer''";
      cases "to_string (projr (get_prop data ''error''))";
      cases "truthy (projr (get_prop data ''error''))") auto

lemma wf_render_response: "wf s \<Longrightarrow> wf (fst (render_response ts data s))"
  by (cases rule: render_response_cases [of ts data s]) (simp_all add: wf_addMessageToChat)

lemma transcript_render_response:
  "prefix (transcript s) (transcript (fst (render_response ts data s)))"
  by (cases rule: render_response_cases [of ts data s])
     (simp_all add: transcript_addMessageToChat)

lemma requests_addMessageToChat:
  "requests (trace (fst (addMessageToChat ts m sd s))) = requests (trace s)"
proof (cases rule: addMessageToChat_cases [of ts m sd s])
  case (raised e)
  then show ?thesis by simp
next
  case (appended b)
  show ?thesis unfolding appended addMessageToChat_JStr by (simp add: requests_append)
qed

lemma requests_render_response:
  "requests (trace (fst (render_response ts data s))) = requests (trace s)"
  by (cases rule: render_response_cases [of ts data s])
     (simp_all add: requests_addMessageToChat)

lemma wf_then_handler: "wf s \<Longrightarrow> wf (fst (then_handler ts ind data s))"
  by (simp add: then_handler_def wf_render_response wf_remove_typing)

lemma wf_catch_handler: "wf s \<Longrightarrow> wf (fst (catch_handler ts ind err s))"
  by (simp add: catch_handler_def wf_addMessageToChat wf_remove_typing)

lemma requests_then_handler:
  "requests (trace (fst (then_handler ts ind data s))) = requests (trace s)"
  by (simp add: then_handler_def requests_render_response requests_remove_typing)

lemma transcript_then_handler:
  assumes "wf s" and "(u, ind) \<in> set (requests (trace s))"
  shows "prefix (transcript s) (transcript (fst (then_handler ts ind data s)))"
  using transcript_render_response [of "remove_typing ind s" ts data]
  by (simp add: then_handler_def transcript_remove_typing [OF assms])

lemma transcript_catch_handler:
  assumes "wf s" and "(u, ind) \<in> set (requests (trace s))"
  shows "prefix (transcript s) (transcript (fst (catch_handler ts ind err s)))"
  using transcript_addMessageToChat [of "remove_typing ind s"]
  by (simp add: catch_handler_def transcript_remove_typing [OF assms])

lemma settle_cases:
  obtains (rejected) err where "out = Rejected err"
      "settle w ts ts' ind out s = catch_handler ts ind err s"
  | (handled) data where "out = Parsed data"
      "settle w ts ts' ind out s = then_handler ts ind data s"
  | (rethrown) data e where "out = Parsed data"
      "snd (then_handler ts ind data s) = Some e"
      "settle w ts ts' ind out s =
         catch_handler ts' ind (Js_error (w e)) (fst (then_handler ts ind data s))"
proof (cases out)
  case (Rejected err)
  then show ?thesis using rejected by (simp add: settle_def)
next
  case (Parsed data)
  show ?thesis
  proof (cases "snd (then_handler ts ind data s)")
    case None
    with Parsed have "settle w ts ts' ind out s = then_handler ts ind data s"
      by (cases "then_handler ts ind data s") (simp add: settle_def)
    with Parsed show ?thesis by (rule handled)
  next
    case (Some e)
    with Parsed have "settle w ts ts' ind out s =
        catch_handler ts' ind (Js_error (w e)) (fst (then_handler ts ind data s))"
      by (cases "then_handler ts ind data s") (simp add: settle_def)
    with Parsed Some show ?thesis by (rule rethrown)
  qed
qed

lemma wf_settle: "wf s \<Longrightarrow> wf (fst (settle w ts ts' ind out s))"
  by (cases rule: settle_cases [of out w ts ts' ind s])
     (simp_all add: wf_then_handler wf_catch_handler)

lemma transcript_settle:
  assumes "wf s" and "(u, ind) \<in> set (requests (trace s))"
  shows "prefix (transcript s) (transcript (fst (settle w ts ts' ind out s)))"
proof (cases rule: settle_cases [of out w ts ts' ind s])
  case (rejected err)
  then show ?thesis by (simp add: transcript_catch_handler [OF assms])
next
  case (handled data)
  then show ?thesis by (simp add: transcript_then_handler [OF assms])
next
  case (rethrown data e)
  let ?s1 = "fst (then_handler ts ind data s)"
  have "wf ?s1" using assms(1) by (rule wf_then_handler)
  moreover have "(u, ind) \<in> set (requests (trace ?s1))"
    using assms(2) by (simp add: requests_then_handler)
  ultimately have "prefix (transcript ?s1)
      (transcript (fst (catch_handler ts' ind (Js_error (w e)) ?s1)))"
    by (rule transcript_catch_handler)
  with transcript_then_handler [OF assms, of ts data] rethrown(3)
  show ?thesis by (simp add: prefix_order.trans)
qed

lemma wf_sendMessage: "wf s \<Longrightarrow> wf (fst (sendMessage ts s))"
  by (simp add: sendMessage_def Let_def wf_sendQuestion)

lemma transcript_sendMessage: "prefix (transcript s) (transcript (fst (sendMessage ts s)))"
  by (simp add: sendMessage_def Let_def transcript_sendQuestion)

lemma wf_tool_click: "wf s \<Longrightarrow> wf (fst (tool_click ts l c s))"
  by (simp add: tool_click_def wf_sendQuestion wf_set_input)

lemma transcript_tool_click: "prefix (transcript s) (transcript (fst (tool_click ts l c s)))"
  by (simp add: tool_click_def transcript_sendQuestion transcript_set_input)

lemma wf_step: "wf s \<Longrightarrow> wf (step w ev s)"
  by (cases ev)
     (simp_all add: step_def on_keypress_def wf_sendMessage wf_tool_click wf_settle)

lemma transcript_step:
  assumes "wf s"
  shows "prefix (transcript s) (transcript (step w ev s))"
proof (cases ev)
  case (Settled i out ts ts')
  show ?thesis
  proof (cases "i < length (requests (trace s))")
    case True
    then have "(fst (requests (trace s) ! i), snd (requests (trace s) ! i))
        \<in> set (requests (trace s))"
      by simp
    from transcript_settle [OF assms this] True Settled show ?thesis
      by (simp add: step_def)
  next
    case False
    with Settled show ?thesis by (simp add: step_def)
  qed
qed (simp_all add: step_def on_keypress_def transcript_sendMessage transcript_tool_click)

lemma wf_run: "wf s \<Longrightarrow> wf (run w evs s)"
  by (induction evs arbitrary: s) (simp_all add: wf_step)

lemma transcript_run: "wf s \<Longrightarrow> prefix (transcript s) (transcript (run w evs s))"
proof (induction evs arbitrary: s)
  case Nil
  then show ?case by simp
next
  case (Cons ev evs)
  have "prefix (transcript s) (transcript (step w ev s))"
    using Cons.prems by (rule transcript_step)
  moreover have "prefix (transcript (step w ev s)) (transcript (run w evs (step w ev s)))"
    using Cons.prems by (intro Cons.IH wf_step)
  ultimately show ?case by (simp add: prefix_order.trans)
qed

lemma run_append: "run w (evs @ evs') s = run w evs' (run w evs s)"
  by (induction evs arbitrary: s) simp_all

lemma wf_loaded: "wf (loaded v els)"
proof -
  have "node e < Suc (Max (node ` set els \<union> {0}))" if "e \<in> set els" for e
    using that by (simp add: less_Suc_eq_le)
  then show ?thesis by (simp add: wf_def loaded_def)
qed

lemma lone_surrogate_ED: "lone_surrogate s \<Longrightarrow> CHR 0xED \<in> set s"
  by (induction s rule: lone_surrogate.induct) auto

lemma percent_encode_unreserved: "list_all unreserved c \<Longrightarrow> percent_encode c = c"
  by (induction c) (simp_all add: percent_encode_def)

lemma encodeURIComponent_unreserved:
  assumes "list_all unreserved c"
  shows "encodeURIComponent c = Inr c"
proof -
  have "\<not> unreserved (CHR 0xED)" by (simp add: unreserved_def)
  with assms have "CHR 0xED \<notin> set c" by (auto simp: list_all_iff)
  then have "\<not> lone_surrogate c" using lone_surrogate_ED by blast
  with assms show ?thesis
    by (simp add: encodeURIComponent_def percent_encode_unreserved)
qed

subsection \<open>White space\<close>

lemma prefix_free_white_space:
  "v \<in> set white_space \<Longrightarrow> w \<in> set white_space \<Longrightarrow> prefix v w \<Longrightarrow> v = w"
  unfolding white_space_def by (simp; elim disjE; simp)

lemma white_space_nonempty: "w \<in> set white_space \<Longrightarrow> w \<noteq> []"
  unfolding white_space_def by auto

lemma strip_white_space_step:
  assumes "w \<in> set white_space"
  shows "strip white_space (w @ rest) = strip white_space rest"
proof -
  from white_space_nonempty [OF assms] obtain c w' where w: "w = c # w'"
    by (cases w) auto
  let ?P = "\<lambda>v. v \<noteq> [] \<and> take (length v) (c # w' @ rest) = v"
  have "?P w" by (simp add: w)
  with assms have "find ?P white_space \<noteq> None"
    by (auto simp: find_None_iff)
  then obtain v where v: "find ?P white_space = Some v" by auto
  then have "v \<in> set white_space" and "?P v"
    by (auto simp: find_Some_iff)
  then have "prefix v (w @ rest)"
    by (metis append_Cons take_is_prefix w)
  moreover have "prefix w (w @ rest)" by simp
  ultimately have "prefix v w \<or> prefix w v"
    using prefix_same_cases by blast
  with \<open>v \<in> set white_space\<close> assms have "v = w"
    using prefix_free_white_space by blast
  with v show ?thesis by (simp add: w)
qed

lemma strip_white_space_only:
  "set ws \<subseteq> set white_space \<Longrightarrow> strip white_space (concat ws) = []"
  by (induction ws) (simp_all add: strip_white_space_step)

lemma trim_white_space_only:
  "set ws \<subseteq> set white_space \<Longrightarrow> trim (concat ws) = []"
  by (simp add: trim_def trimStart_def trimEnd_def strip_white_space_only)

lemma strip_bytes: "set s \<subseteq> \<Union> (set ` set ws) \<union> set (strip ws s)"
proof (induction ws s rule: strip.induct)
  case (1 ws)
  then show ?case by simp
next
  case (2 ws c cs)
  let ?P = "\<lambda>w. w \<noteq> [] \<and> take (length w) (c # cs) = w"
  show ?case
  proof (cases "find ?P ws")
    case None
    then show ?thesis by auto
  next
    case (Some w)
    then have w: "w \<in> set ws" "w \<noteq> []" "take (length w) (c # cs) = w"
      by (auto simp: find_Some_iff)
    from w(2) have "drop (length w) (c # cs) = drop (length w - 1) cs"
      by (cases w) simp_all
    then have "c # cs = w @ drop (length w - 1) cs"
      using w(3) append_take_drop_id [of "length w" "c # cs"] by simp
    then have "set (c # cs) = set w \<union> set (drop (length w - 1) cs)"
      by (metis set_append)
    moreover have "set (drop (length w - 1) cs) \<subseteq>
        \<Union> (set ` set ws) \<union> set (strip ws (drop (length w - 1) cs))"
      using "2.IH" [OF Some] .
    moreover have "set w \<subseteq> \<Union> (set ` set ws)" using w(1) by auto
    ultimately show ?thesis using Some by auto
  qed
qed

lemma trim_empty_bytes:
  assumes "trim s = []"
  shows "set s \<subseteq> \<Union> (set ` set white_space)"
proof -
  let ?t = "strip white_space s"
  from assms have "strip (map rev white_space) (rev ?t) = []"
    by (simp add: trim_def trimStart_def trimEnd_def)
  with strip_bytes [of "rev ?t" "map rev white_space"]
  have "set ?t \<subseteq> \<Union> (set ` set white_space)" by auto
  with strip_bytes [of s white_space] show ?thesis by blast
qed

lemma trim_empty_encodable:
  assumes "trim s = []"
  shows "encodeURIComponent s = Inr (percent_encode s)"
proof -
  have "CHR 0xED \<notin> \<Union> (set ` set white_space)"
    by (simp add: white_space_def)
  with trim_empty_bytes [OF assms] have "CHR 0xED \<notin> set s" by blast
  then have "\<not> lone_surrogate s" using lone_surrogate_ED by blast
  then show ?thesis by (simp add: encodeURIComponent_def)
qed

subsection \<open>Submission from the text field\<close>

text \<open>
  A submission whose trimmed text \<open>q\<close> is not empty clears the field, appends the user's
  message and the typing indicator, and then calls \<^verbatim>\<open>fetch\<close> when \<open>q\<close> can be encoded,
  or throws when it cannot. The Enter key does what the send button does.
\<close>

lemma sendMessage_nonblank:
  assumes "trim (input_value s) = q" and "q \<noteq> []"
  shows "sendMessage ts s =
     (s\<lparr>input_value := [],
        fresh := Suc (Suc (fresh s)),
        children := children s @ [message_element (fresh s) User ts (replace_lf q),
                                  typing_element (Suc (fresh s))],
        trace := trace s @
          [Set_input [],
           Append_child (message_element (fresh s) User ts (replace_lf q)), Scroll_to_bottom,
           Append_child (typing_element (Suc (fresh s))), Scroll_to_bottom] @
          (case encodeURIComponent q of
             Inl e \<Rightarrow> []
           | Inr enc \<Rightarrow>
               [Fetch (''/api/consult?question='' @ enc @ ''&category=general'')
                  (Suc (fresh s))])\<rparr>,
      case encodeURIComponent q of Inl e \<Rightarrow> Some (URI_error e) | Inr enc \<Rightarrow> None)"
    and "on_keypress ts ''Enter'' s = sendMessage ts s"
  using assms
  by (cases "encodeURIComponent q"; simp add: sendMessage_def on_keypress_def sendQuestion_eq)+

subsection \<open>The two sessions, evaluated\<close>

lemma asked_eq:
  "asked =
     \<lparr>input_value = [],
      children = [message_element 1 User ''10:00'' ''How can I improve my cash flow?'',
                  typing_element 2],
      fresh = 3,
      trace =
        [Set_input [],
         Append_child (message_element 1 User ''10:00'' ''How can I improve my cash flow?''),
         Scroll_to_bottom,
         Append_child (typing_element 2), Scroll_to_bottom,
         Fetch ''/api/consult?question=How%20can%20I%20improve%20my%20cash%20flow%3F&category=general'' 2]\<rparr>"
proof -
  have t: "trim ''How can I improve my cash flow?'' = ''How can I improve my cash flow?''"
    by (simp add: trim_def trimStart_def trimEnd_def white_space_def)
  have u: "encodeURIComponent ''How can I improve my cash flow?'' =
      Inr ''How%20can%20I%20improve%20my%20cash%20flow%3F''"
    by (simp add: encodeURIComponent_def percent_encode_def unreserved_def percent_def
        hex_digit_def)
  show ?thesis
    by (simp add: asked_def sendMessage_def Let_def loaded_def t u sendQuestion_eq
        numeral_2_eq_2 numeral_3_eq_3)
qed

lemma children_asked:
  "children asked =
     [message_element 1 User ''10:00'' ''How can I improve my cash flow?'', typing_element 2]"
  and fresh_asked: "fresh asked = 3"
  by (simp_all add: asked_eq)

lemma asked_twice_eq:
  "asked_twice =
     \<lparr>input_value = [],
      children = [message_element 1 User ''10:00'' ''Cash flow'', typing_element 2,
                  message_element 3 User ''10:01'' ''Hiring'', typing_element 4],
      fresh = 5,
      trace =
        [Set_input ''Cash flow'', Set_input [],
         Append_child (message_element 1 User ''10:00'' ''Cash flow''), Scroll_to_bottom,
         Append_child (typing_element 2), Scroll_to_bottom,
         Fetch ''/api/consult?question=Cash%20flow&category=finance'' 2,
         Set_input ''Hiring'', Set_input [],
         Append_child (message_element 3 User ''10:01'' ''Hiring''), Scroll_to_bottom,
         Append_child (typing_element 4), Scroll_to_bottom,
         Fetch ''/api/consult?question=Hiring&category=hr'' 4]\<rparr>"
proof -
  have u: "encodeURIComponent ''Cash flow'' = Inr ''Cash%20flow''"
    "encodeURIComponent ''Hiring'' = Inr ''Hiring''"
    by (simp_all add: encodeURIComponent_def percent_encode_def unreserved_def percent_def
        hex_digit_def)
  show ?thesis
    by (simp add: asked_twice_def step_def tool_click_def set_input_def loaded_def u
        sendQuestion_eq eval_nat_numeral)
qed

subsection \<open>Rendering\<close>

lemma replace_lf_br_text: "replace_lf m = br_text m"
  by (induction m) (simp_all add: br_text_def)


section \<open>The claims of the specification\<close>

text \<open>
  C1, as the script has it. The handler branches on the truthiness of \<^verbatim>\<open>data.error\<close>, not
  on the presence of the field. When the field is absent or falsy (\<^verbatim>\<open>null\<close>, \<^verbatim>\<open>false\<close>,
  zero, the empty string) and \<^verbatim>\<open>answer\<close> is a string, the placeholder is removed and
  exactly one message of the assistant with the answer is appended, with no error left
  over. When the field is truthy, the error branch runs instead: the message appended is
  \<^verbatim>\<open>Error: \<close> followed by the field's text, or, for a field that has no text (an
  object with an own property \<^verbatim>\<open>toString\<close>), the network error of that failure.
\<close>
theorem decides_by_truthiness:
  assumes "get_prop data ''error'' = Inr err"
  shows "(\<not> truthy err \<longrightarrow> get_prop data ''answer'' = Inr (JStr a) \<longrightarrow>
            snd (settle w ts ts' ind (Parsed data) s) = None \<and>
            children (fst (settle w ts ts' ind (Parsed data) s)) =
              filter (\<lambda>e. node e \<noteq> ind) (children s) @
                [message_element (fresh s) AI ts (replace_lf a)])
       \<and> (truthy err \<longrightarrow> to_string err = Inr t \<longrightarrow>
            snd (settle w ts ts' ind (Parsed data) s) = None \<and>
            children (fst (settle w ts ts' ind (Parsed data) s)) =
              filter (\<lambda>e. node e \<noteq> ind) (children s) @
                [message_element (fresh s) AI ts (replace_lf (''Error: '' @ t))])
       \<and> (truthy err \<longrightarrow> to_string err = Inl e \<longrightarrow>
            snd (settle w ts ts' ind (Parsed data) s) = None \<and>
            children (fst (settle w ts ts' ind (Parsed data) s)) =
              filter (\<lambda>e. node e \<noteq> ind) (children s) @
                [message_element (fresh s) AI ts' (replace_lf (''Network error: '' @ w e))])"
  using assms
  by (simp add: settle_def then_handler_def render_response_def catch_handler_def
      addMessageToChat_JStr children_remove_typing fresh_remove_typing
      remove_typing_detached parentNode_remove_typing)

theorem decides_by_truthiness_witness:
  "get_prop (JObj [(''answer'', JStr ''Track receivables weekly.'')]) ''error'' = Inr JUndefined \<and>
   get_prop (JObj [(''error'', JStr ''busy''), (''answer'', JStr ''unused'')]) ''error'' =
     Inr (JStr ''busy'') \<and>
   children (fst (settle v8_wording ''10:01'' ''10:01'' 2
       (Parsed (JObj [(''answer'', JStr ''Track receivables weekly.'')])) asked)) =
     [message_element 1 User ''10:00'' ''How can I improve my cash flow?'',
      message_element 3 AI ''10:01'' ''Track receivables weekly.''] \<and>
   children (fst (settle v8_wording ''10:01'' ''10:01'' 2
       (Parsed (JObj [(''error'', JStr ''busy''), (''answer'', JStr ''unused'')])) asked)) =
     [message_element 1 User ''10:00'' ''How can I improve my cash flow?'',
      message_element 3 AI ''10:01'' ''Error: busy'']"
proof -
  have h1: "get_prop (JObj [(''answer'', JStr ''Track receivables weekly.'')]) ''error'' =
      Inr JUndefined" by simp
  have h2: "get_prop (JObj [(''error'', JStr ''busy''), (''answer'', JStr ''unused'')]) ''error'' =
      Inr (JStr ''busy'')" by simp
  show ?thesis
    using h1 h2
      decides_by_truthiness [OF h1, of "''Track receivables weekly.''" v8_wording
        "''10:01''" "''10:01''" 2 asked]
      decides_by_truthiness [OF h2, of _ v8_wording "''10:01''" "''10:01''" 2 asked "''busy''"]
    by (simp add: children_asked fresh_asked)
qed

text \<open>
  C1, as stated, fails: the body \<^verbatim>\<open>{"error": null, "answer": "Track receivables weekly."}\<close>
  has an error field, and the answer is rendered, not an error message.
\<close>
theorem null_error_field_takes_answer:
  "map_of [(''error'', JNull), (''answer'', JStr ''Track receivables weekly.'')] ''error'' = Some JNull \<and>
   children (fst (settle v8_wording ''10:01'' ''10:01'' 2
       (Parsed (JObj [(''error'', JNull), (''answer'', JStr ''Track receivables weekly.'')])) asked)) =
     [message_element 1 User ''10:00'' ''How can I improve my cash flow?'',
      message_element 3 AI ''10:01'' ''Track receivables weekly.''] \<and>
   message_element 3 AI ''10:01'' ''Error: null'' \<notin>
     set (children (fst (settle v8_wording ''10:01'' ''10:01'' 2
       (Parsed (JObj [(''error'', JNull), (''answer'', JStr ''Track receivables weekly.'')])) asked)))"
  by (simp add: settle_def then_handler_def render_response_def
      addMessageToChat_JStr children_remove_typing fresh_remove_typing children_asked
      fresh_asked message_element_def message_html_def eval_nat_numeral)

text \<open>
  C2, as the script has it. The URL of the request issued is the consult endpoint with
  the question encoded by \<^verbatim>\<open>encodeURIComponent\<close> (the percent-encoding of every question
  without unpaired surrogate) and the category interpolated as it is; for a category of
  unreserved characters only, such as \<^verbatim>\<open>general\<close>, that is its encoded form. Where the
  question cannot be encoded no request is issued.
\<close>
theorem request_url:
  "map fst (requests (trace (fst (sendQuestion ts q c s)))) =
     map fst (requests (trace s)) @
       (case encodeURIComponent q of
          Inl e \<Rightarrow> []
        | Inr enc \<Rightarrow> [''/api/consult?question='' @ enc @ ''&category='' @ category_text c])
   \<and> (\<not> lone_surrogate q \<longrightarrow> encodeURIComponent q = Inr (percent_encode q))
   \<and> (list_all unreserved cat \<longrightarrow> encodeURIComponent cat = Inr (category_text (Some cat)))"
proof -
  have "\<not> lone_surrogate q \<longrightarrow> encodeURIComponent q = Inr (percent_encode q)"
    by (simp add: encodeURIComponent_def)
  then show ?thesis
    by (cases "encodeURIComponent q")
       (simp_all add: sendQuestion_eq requests_append encodeURIComponent_unreserved)
qed

theorem request_url_witness:
  "\<not> lone_surrogate ''How can I improve my cash flow?'' \<and>
   list_all unreserved ''general'' \<and>
   map fst (requests (trace (fst (sendQuestion ''10:00'' ''How can I improve my cash flow?''
       (Some ''general'') (loaded [] []))))) =
     [''/api/consult?question=How%20can%20I%20improve%20my%20cash%20flow%3F&category=general'']
   \<and> encodeURIComponent ''general'' = Inr (category_text (Some ''general''))"
proof -
  have h: "list_all unreserved ''general''" by (simp add: unreserved_def)
  have n: "\<not> lone_surrogate ''How can I improve my cash flow?''" by simp
  have e: "percent_encode ''How can I improve my cash flow?'' =
      ''How%20can%20I%20improve%20my%20cash%20flow%3F''"
    by (simp add: percent_encode_def unreserved_def percent_def hex_digit_def)
  show ?thesis
    using h n e request_url [of "''10:00''" "''How can I improve my cash flow?''"
        "Some ''general''" "loaded [] []" "''general''"]
    by (simp add: loaded_def)
qed

text \<open>
  C2, as stated, fails: for the category \<^verbatim>\<open>a&b\<close> the URL issued is not the one with the
  category encoded.
\<close>
theorem category_not_encoded:
  "encodeURIComponent ''q'' = Inr ''q'' \<and>
   encodeURIComponent ''a&b'' = Inr ''a%26b'' \<and>
   map fst (requests (trace (fst (sendQuestion ''10:00'' ''q'' (Some ''a&b'') (loaded [] []))))) =
     [''/api/consult?question=q&category=a&b''] \<and>
   map fst (requests (trace (fst (sendQuestion ''10:00'' ''q'' (Some ''a&b'') (loaded [] []))))) \<noteq>
     [''/api/consult?question='' @ ''q'' @ ''&category='' @ ''a%26b'']"
  by (simp add: sendQuestion_eq requests_append encodeURIComponent_def percent_encode_def
      unreserved_def percent_def hex_digit_def loaded_def)

text \<open>
  C3. When the text of the field is empty after trimming, as it is for every text made
  of white space only, a click on the send button and the Enter key leave the page as it
  is: no element is appended, no network call is issued, and no effect is recorded.
\<close>
theorem blank_input_ignored:
  assumes "trim (input_value s) = [] \<or>
           (\<exists>ws. set ws \<subseteq> set white_space \<and> input_value s = concat ws)"
  shows "sendMessage ts s = (s, None) \<and> on_keypress ts ''Enter'' s = (s, None)"
proof -
  from assms have "trim (input_value s) = []"
    by (auto simp: trim_white_space_only)
  then show ?thesis
    by (simp add: sendMessage_def on_keypress_def)
qed

theorem blank_input_ignored_witness:
  "(\<exists>ws. set ws \<subseteq> set white_space \<and>
      input_value (loaded [CHR 0x20, CHR 0x09, CHR 0xC2, CHR 0xA0, CHR 0x0A] []) = concat ws) \<and>
   sendMessage ''10:00'' (loaded [CHR 0x20, CHR 0x09, CHR 0xC2, CHR 0xA0, CHR 0x0A] []) =
     (loaded [CHR 0x20, CHR 0x09, CHR 0xC2, CHR 0xA0, CHR 0x0A] [], None) \<and>
   on_keypress ''10:00'' ''Enter'' (loaded [CHR 0x20, CHR 0x09, CHR 0xC2, CHR 0xA0, CHR 0x0A] []) =
     (loaded [CHR 0x20, CHR 0x09, CHR 0xC2, CHR 0xA0, CHR 0x0A] [], None)"
proof -
  have "set [[CHR 0x20], [CHR 0x09], [CHR 0xC2, CHR 0xA0], [CHR 0x0A]] \<subseteq> set white_space \<and>
      input_value (loaded [CHR 0x20, CHR 0x09, CHR 0xC2, CHR 0xA0, CHR 0x0A] []) =
        concat [[CHR 0x20], [CHR 0x09], [CHR 0xC2, CHR 0xA0], [CHR 0x0A]]"
    by (simp add: white_space_def loaded_def)
  then have h: "\<exists>ws. set ws \<subseteq> set white_space \<and>
      input_value (loaded [CHR 0x20, CHR 0x09, CHR 0xC2, CHR 0xA0, CHR 0x0A] []) = concat ws"
    by blast
  show ?thesis
    using h blank_input_ignored [OF disjI2, OF h, of "''10:00''"] by simp
qed

text \<open>
  C4. A submission whose trimmed text is not empty clears the field, appends one message
  of the user and one typing indicator, and only then issues the network call. The
  script does so for every text that can be encoded. For the text \<^verbatim>\<open>Hi \<close> followed by
  the unpaired surrogate U+D83D (half of an emoji) it does not: the field is cleared,
  the message and the typing indicator are appended, and then \<^verbatim>\<open>encodeURIComponent\<close>
  throws, from the send button and from the Enter key alike. No call is issued and the
  typing indicator stays.
\<close>
theorem submit_unpaired_surrogate:
  "trim (input_value (loaded (''Hi '' @ [CHR 0xED, CHR 0xA0, CHR 0xBD]) [])) =
     ''Hi'' @ [CHR 0x20, CHR 0xED, CHR 0xA0, CHR 0xBD] \<and>
   encodeURIComponent (''Hi'' @ [CHR 0x20, CHR 0xED, CHR 0xA0, CHR 0xBD]) = Inl URI_malformed \<and>
   sendMessage ''10:00'' (loaded (''Hi '' @ [CHR 0xED, CHR 0xA0, CHR 0xBD]) []) =
     (\<lparr>input_value = [],
       children =
         [message_element 1 User ''10:00'' (''Hi'' @ [CHR 0x20, CHR 0xED, CHR 0xA0, CHR 0xBD]),
          typing_element 2],
       fresh = 3,
       trace =
         [Set_input [],
          Append_child
            (message_element 1 User ''10:00'' (''Hi'' @ [CHR 0x20, CHR 0xED, CHR 0xA0, CHR 0xBD])),
          Scroll_to_bottom,
          Append_child (typing_element 2), Scroll_to_bottom]\<rparr>,
      Some (URI_error URI_malformed)) \<and>
   on_keypress ''10:00'' ''Enter'' (loaded (''Hi '' @ [CHR 0xED, CHR 0xA0, CHR 0xBD]) []) =
     sendMessage ''10:00'' (loaded (''Hi '' @ [CHR 0xED, CHR 0xA0, CHR 0xBD]) []) \<and>
   requests (trace (fst (sendMessage ''10:00''
     (loaded (''Hi '' @ [CHR 0xED, CHR 0xA0, CHR 0xBD]) [])))) = []"
proof -
  have t: "trim (input_value (loaded (''Hi '' @ [CHR 0xED, CHR 0xA0, CHR 0xBD]) [])) =
      ''Hi'' @ [CHR 0x20, CHR 0xED, CHR 0xA0, CHR 0xBD]"
    by (simp add: loaded_def trim_def trimStart_def trimEnd_def white_space_def)
  have n: "''Hi'' @ [CHR 0x20, CHR 0xED, CHR 0xA0, CHR 0xBD] \<noteq> []" by simp
  have e: "encodeURIComponent (''Hi'' @ [CHR 0x20, CHR 0xED, CHR 0xA0, CHR 0xBD]) =
      Inl URI_malformed"
    by (simp add: encodeURIComponent_def)
  show ?thesis
    using t e sendMessage_nonblank [OF t n, of "''10:00''"]
    by (simp add: loaded_def eval_nat_numeral)
qed

text \<open>
  C5, as the script has it. When the parsed body has a truthy error field (for a string:
  a non-empty one) that converts to the text \<open>t\<close>, the placeholder is removed and exactly
  one message of the assistant is appended, with the text \<^verbatim>\<open>Error: \<close> followed by \<open>t\<close>; no
  error is left over. The body \<^verbatim>\<open>{"error": "rate limited"}\<close> gives \<^verbatim>\<open>Error: rate limited\<close>.
\<close>
theorem error_field_rendered:
  assumes "get_prop data ''error'' = Inr err" and "truthy err" and "to_string err = Inr t"
  shows "settle w ts ts' ind (Parsed data) s =
     addMessageToChat ts (JStr (''Error: '' @ t)) AI (remove_typing ind s)
   \<and> snd (settle w ts ts' ind (Parsed data) s) = None
   \<and> children (fst (settle w ts ts' ind (Parsed data) s)) =
       filter (\<lambda>e. node e \<noteq> ind) (children s) @
         [message_element (fresh s) AI ts (replace_lf (''Error: '' @ t))]"
  using assms
  by (simp add: settle_def then_handler_def render_response_def addMessageToChat_JStr
      children_remove_typing fresh_remove_typing)

theorem error_field_rendered_witness:
  "get_prop (JObj [(''error'', JStr ''rate limited'')]) ''error'' = Inr (JStr ''rate limited'') \<and>
   truthy (JStr ''rate limited'') \<and>
   to_string (JStr ''rate limited'') = Inr ''rate limited'' \<and>
   children (fst (settle v8_wording ''10:01'' ''10:01'' 2
       (Parsed (JObj [(''error'', JStr ''rate limited'')])) asked)) =
     [message_element 1 User ''10:00'' ''How can I improve my cash flow?'',
      message_element 3 AI ''10:01'' ''Error: rate limited'']"
proof -
  have h1: "get_prop (JObj [(''error'', JStr ''rate limited'')]) ''error'' =
      Inr (JStr ''rate limited'')" by simp
  have h2: "truthy (JStr ''rate limited'')" by simp
  have h3: "to_string (JStr ''rate limited'') = Inr ''rate limited''" by simp
  show ?thesis
    using h1 h2 h3
      error_field_rendered [OF h1 h2 h3, THEN conjunct2, of v8_wording "''10:01''" "''10:01''" 2 asked]
    by (simp add: children_asked fresh_asked)
qed

text \<open>
  C5, as stated, fails: the body \<^verbatim>\<open>{"error": ""}\<close> contains an error field, and the
  message appended is not \<^verbatim>\<open>Error: \<close> but the network error of the failed read of
  \<^verbatim>\<open>answer\<close>.
\<close>
theorem empty_error_field_not_rendered:
  "map_of [(''error'', JStr [])] ''error'' = Some (JStr []) \<and>
   children (fst (settle v8_wording ''10:01'' ''10:02'' 2
       (Parsed (JObj [(''error'', JStr [])])) asked)) =
     [message_element 1 User ''10:00'' ''How can I improve my cash flow?'',
      message_element 4 AI ''10:02''
        (''Network error: Cannot read properties of undefined (reading ''
          @ [CHR 0x27] @ ''replace'' @ [CHR 0x27] @ '')'')] \<and>
   message_element 3 AI ''10:01'' (''Error: '' @ []) \<notin>
     set (children (fst (settle v8_wording ''10:01'' ''10:02'' 2
       (Parsed (JObj [(''error'', JStr [])])) asked)))"
  by (simp add: settle_def then_handler_def render_response_def catch_handler_def
      addMessageToChat_def createElement_def appendChild_def scroll_to_bottom_def
      children_remove_typing fresh_remove_typing children_asked fresh_asked
      message_element_def eval_nat_numeral)

text \<open>
  C6. When the call is rejected (by \<^verbatim>\<open>fetch\<close> or by \<^verbatim>\<open>response.json()\<close>) with an error
  of message \<open>m\<close>, the placeholder is removed, exactly one message of the assistant with
  the text \<^verbatim>\<open>Network error: \<close> followed by \<open>m\<close> is appended, and no error leaves the chain.
\<close>
theorem transport_failure_rendered:
  "settle w ts ts' ind (Rejected err) s =
     addMessageToChat ts (JStr (''Network error: '' @ message err)) AI (remove_typing ind s)
   \<and> snd (settle w ts ts' ind (Rejected err) s) = None
   \<and> children (fst (settle w ts ts' ind (Rejected err) s)) =
       filter (\<lambda>e. node e \<noteq> ind) (children s) @
         [message_element (fresh s) AI ts (replace_lf (''Network error: '' @ message err))]
   \<and> (ind < fresh s \<longrightarrow> parentNode (fst (settle w ts ts' ind (Rejected err) s)) ind = None)"
  by (auto simp: settle_def catch_handler_def addMessageToChat_JStr children_remove_typing
      fresh_remove_typing parentNode_def)

theorem transport_failure_rendered_witness:
  "2 < fresh asked \<and>
   snd (settle v8_wording ''10:01'' ''10:01'' 2 (Rejected (Js_error ''Failed to fetch'')) asked) = None \<and>
   children (fst (settle v8_wording ''10:01'' ''10:01'' 2 (Rejected (Js_error ''Failed to fetch'')) asked)) =
     [message_element 1 User ''10:00'' ''How can I improve my cash flow?'',
      message_element 3 AI ''10:01'' ''Network error: Failed to fetch''] \<and>
   parentNode (fst (settle v8_wording ''10:01'' ''10:01'' 2 (Rejected (Js_error ''Failed to fetch'')) asked)) 2 = None"
proof -
  have h: "2 < fresh asked" by (simp add: fresh_asked)
  show ?thesis
    using h transport_failure_rendered [THEN conjunct2, of v8_wording "''10:01''" "''10:01''" 2
        "Js_error ''Failed to fetch''" asked]
    by (simp add: children_asked fresh_asked)
qed

text \<open>
  C7. Removing the placeholder is idempotent, and it records a removal only when the
  element is attached. On a detached placeholder the step does nothing: the then handler
  is the rendering of the body alone, the catch handler is the appending of the message
  alone, and the catch handler raises nothing.
\<close>
theorem placeholder_removal_idempotent:
  "remove_typing ind (remove_typing ind s) = remove_typing ind s
   \<and> trace (remove_typing ind s) =
       trace s @ (if parentNode s ind = None then [] else [Remove_child ind])
   \<and> (parentNode s ind = None \<longrightarrow>
        remove_typing ind s = s \<and>
        then_handler ts ind data s = render_response ts data s \<and>
        catch_handler ts ind err s =
          addMessageToChat ts (JStr (''Network error: '' @ message err)) AI s)
   \<and> snd (catch_handler ts ind err s) = None"
  by (auto simp: remove_typing_detached parentNode_remove_typing then_handler_def
      catch_handler_def remove_typing_attached addMessageToChat_JStr)

theorem placeholder_removal_idempotent_witness:
  "parentNode (remove_typing 2 asked) 2 = None \<and>
   remove_typing 2 (remove_typing 2 asked) = remove_typing 2 asked \<and>
   then_handler ''10:01'' 2 JNull (remove_typing 2 asked) =
     (remove_typing 2 asked, Some (Read_of_null ''error'')) \<and>
   catch_handler ''10:01'' 2 (Js_error ''Failed to fetch'') (remove_typing 2 asked) =
     addMessageToChat ''10:01'' (JStr ''Network error: Failed to fetch'') AI (remove_typing 2 asked)"
proof -
  have h: "parentNode (remove_typing 2 asked) 2 = None"
    by (simp add: parentNode_def children_remove_typing children_asked)
  show ?thesis
    using h placeholder_removal_idempotent [of 2 "remove_typing 2 asked" "''10:01''" JNull
        "Js_error ''Failed to fetch''"]
    by (simp add: render_response_def)
qed

text \<open>
  C8. Along every run of events from a well-formed page, the transcript before is a
  prefix of the transcript after: no message is changed, removed or reordered. A
  settled call appends its answer at the end, whichever call it is, so the order is
  that of settlement. Every loaded page is well formed: the transcript after a run
  from it is a prefix of the transcript after any longer run.
\<close>
theorem transcript_append_only:
  "(wf s \<longrightarrow>
      prefix (transcript s) (transcript (run w evs s)) \<and>
      wf (run w evs s) \<and>
      (i < length (requests (trace s)) \<longrightarrow>
         transcript (step w (Settled i (Parsed (JObj [(''answer'', JStr a)])) ts ts') s) =
           transcript s @ [message_element (fresh s) AI ts (replace_lf a)]))
   \<and> prefix (transcript (run w evs (loaded v els)))
         (transcript (run w (evs @ evs') (loaded v els)))"
proof -
  have "transcript (step w (Settled i (Parsed (JObj [(''answer'', JStr a)])) ts ts') s) =
          transcript s @ [message_element (fresh s) AI ts (replace_lf a)]"
    if "wf s" and i: "i < length (requests (trace s))"
  proof -
    let ?ind = "snd (requests (trace s) ! i)"
    from i have "(fst (requests (trace s) ! i), ?ind) \<in> set (requests (trace s))"
      by simp
    then have "transcript (remove_typing ?ind s) = transcript s"
      by (rule transcript_remove_typing [OF \<open>wf s\<close>])
    then show ?thesis
      using i
      by (simp add: step_def settle_def then_handler_def render_response_def
          addMessageToChat_JStr transcript_def is_message_message fresh_remove_typing)
  qed
  moreover have "prefix (transcript (run w evs (loaded v els)))
      (transcript (run w (evs @ evs') (loaded v els)))"
    unfolding run_append by (intro transcript_run wf_run wf_loaded)
  ultimately show ?thesis
    by (simp add: transcript_run wf_run)
qed

theorem transcript_append_only_witness:
  "wf asked_twice \<and>
   1 < length (requests (trace asked_twice)) \<and>
   transcript asked_twice =
     [message_element 1 User ''10:00'' ''Cash flow'',
      message_element 3 User ''10:01'' ''Hiring''] \<and>
   transcript (step v8_wording
       (Settled 1 (Parsed (JObj [(''answer'', JStr ''Post the job.'')])) ''10:02'' ''10:02'')
       asked_twice) =
     [message_element 1 User ''10:00'' ''Cash flow'',
      message_element 3 User ''10:01'' ''Hiring'',
      message_element 5 AI ''10:02'' ''Post the job.''] \<and>
   prefix (transcript asked_twice)
     (transcript (run v8_wording
       [Settled 1 (Parsed (JObj [(''answer'', JStr ''Post the job.'')])) ''10:02'' ''10:02'',
        Settled 0 (Rejected (Js_error ''Failed to fetch'')) ''10:03'' ''10:03'']
       asked_twice))"
proof -
  have h: "wf asked_twice"
    unfolding asked_twice_def by (intro wf_run wf_loaded)
  have i: "1 < length (requests (trace asked_twice))"
    by (simp add: asked_twice_eq)
  have t: "transcript asked_twice =
     [message_element 1 User ''10:00'' ''Cash flow'',
      message_element 3 User ''10:01'' ''Hiring'']"
    by (simp add: asked_twice_eq transcript_def is_message_message not_message_typing)
  have f: "fresh asked_twice = 5" by (simp add: asked_twice_eq)
  show ?thesis
    using h i t f
      transcript_append_only [THEN conjunct1, of asked_twice v8_wording
        "[Settled 1 (Parsed (JObj [(''answer'', JStr ''Post the job.'')])) ''10:02'' ''10:02'',
          Settled 0 (Rejected (Js_error ''Failed to fetch'')) ''10:03'' ''10:03'']"
        1 "''Post the job.''" "''10:02''" "''10:02''"]
    by simp
qed

text \<open>
  C9. The body of a rendered message is the text with each line feed replaced by
  \<^verbatim>\<open><br>\<close> and every other character as it is; it is placed unchanged between the
  fixed opening and closing markup of the block. A text without line feed is rendered
  as it is, markup characters included.
\<close>
theorem only_line_breaks:
  "formatMessage (JStr m) = Inr (br_text m)
   \<and> children (fst (addMessageToChat ts (JStr m) sd s)) =
       children s @
         [\<lparr>node = fresh s, classes = [''message'', sender_class sd], ident = [],
           innerHTML = message_html sd ts (br_text m)\<rparr>]
   \<and> (\<exists>pre post. \<forall>body. message_html sd ts body = pre @ body @ post)
   \<and> (CHR 0x0A \<notin> set m \<longrightarrow> br_text m = m)"
proof -
  have "\<forall>body. message_html sd ts body =
      (nl @ ''            <div class=\"message-header\">''
       @ nl @ ''                <span>'' @ sender_label sd @ ''</span>''
       @ nl @ ''                <span class=\"message-time\">'' @ ts @ ''</span>''
       @ nl @ ''            </div>''
       @ nl @ ''            <div class=\"message-content\">'') @ body @ (''</div>''
       @ nl @ ''        '')"
    by (simp add: message_html_def)
  then have "\<exists>pre post. \<forall>body. message_html sd ts body = pre @ body @ post"
    by blast
  moreover have "CHR 0x0A \<notin> set m \<longrightarrow> br_text m = m"
    by (induction m) (simp_all add: br_text_def)
  ultimately show ?thesis
    by (simp add: addMessageToChat_JStr replace_lf_br_text message_element_def)
qed

theorem only_line_breaks_witness:
  "CHR 0x0A \<notin> set ''<b>5 & 6</b>'' \<and>
   formatMessage (JStr ''<b>5 & 6</b>'') = Inr ''<b>5 & 6</b>'' \<and>
   formatMessage (JStr (''a'' @ [CHR 0x0A] @ ''<i>b</i>'')) = Inr ''a<br><i>b</i>''"
proof -
  have h: "CHR 0x0A \<notin> set ''<b>5 & 6</b>''" by simp
  show ?thesis
    using h only_line_breaks [of "''<b>5 & 6</b>''" "''10:00''" User asked]
    by simp
qed

text \<open>
  C10. A click on a tool button runs the request cycle with the label as it is, for
  every label: the message of the user and the network call carry the untrimmed label
  (the call is issued unless the label cannot be encoded). A label that trims to the
  empty string can always be encoded, so its message is appended and its call issued,
  where the same text in the field is ignored by the send button.
\<close>
theorem tool_click_unvalidated:
  "fst (tool_click ts label category s) =
     s\<lparr>input_value := [],
       fresh := Suc (Suc (fresh s)),
       children := children s @ [message_element (fresh s) User ts (replace_lf label),
                                 typing_element (Suc (fresh s))],
       trace := trace s @
         [Set_input label, Set_input [],
          Append_child (message_element (fresh s) User ts (replace_lf label)), Scroll_to_bottom,
          Append_child (typing_element (Suc (fresh s))), Scroll_to_bottom] @
         (case encodeURIComponent label of
            Inl e \<Rightarrow> []
          | Inr enc \<Rightarrow>
              [Fetch (''/api/consult?question='' @ enc @ ''&category='' @ category_text category)
                 (Suc (fresh s))])\<rparr>
   \<and> snd (tool_click ts label category s) =
       (case encodeURIComponent label of Inl e \<Rightarrow> Some (URI_error e) | Inr enc \<Rightarrow> None)
   \<and> (trim label = [] \<longrightarrow>
        encodeURIComponent label = Inr (percent_encode label) \<and>
        fst (sendMessage ts (s\<lparr>input_value := label\<rparr>)) = s\<lparr>input_value := label\<rparr>)"
proof -
  have "trim label = [] \<longrightarrow> encodeURIComponent label = Inr (percent_encode label)"
    using trim_empty_encodable by blast
  then show ?thesis
    by (cases "encodeURIComponent label")
       (simp_all add: tool_click_def sendQuestion_eq set_input_def sendMessage_def)
qed

theorem tool_click_unvalidated_witness:
  "trim ''  '' = [] \<and>
   trace (fst (tool_click ''10:00'' ''  '' (Some ''finance'') (loaded [] []))) =
     [Set_input ''  '', Set_input [],
      Append_child (message_element 1 User ''10:00'' ''  ''), Scroll_to_bottom,
      Append_child (typing_element 2), Scroll_to_bottom,
      Fetch ''/api/consult?question=%20%20&category=finance'' 2] \<and>
   snd (tool_click ''10:00'' ''  '' (Some ''finance'') (loaded [] [])) = None \<and>
   fst (sendMessage ''10:00'' ((loaded [] [])\<lparr>input_value := ''  ''\<rparr>)) =
     (loaded [] [])\<lparr>input_value := ''  ''\<rparr>"
proof -
  have h: "trim ''  '' = []"
    by (simp add: trim_def trimStart_def trimEnd_def white_space_def)
  have u: "percent_encode ''  '' = ''%20%20''"
    by (simp add: percent_encode_def unreserved_def percent_def hex_digit_def)
  show ?thesis
    using h u tool_click_unvalidated [of "''10:00''" "''  ''" "Some ''finance''" "loaded [] []"]
    by (simp add: loaded_def numeral_2_eq_2)
qed

end
